theory Spec2Isabelle
  imports Complex_Main
begin

section \<open>Data model of \<open>src/main.ts\<close>\<close>

text \<open>
  The game is the fold \<open>scan\<close> in \<open>state$\<close> (the later of the two versions kept in
  \<open>main.ts\<close>, the one with score, restart and ghosts).  The fold closes over three pieces of
  mutable data: the array \<open>activePipes\<close> owned by \<open>animatePipes\<close>, the array \<open>currentRun\<close>
  and the \<open>GhostManager\<close>.  They are gathered in the record \<open>World\<close>, which every operation
  takes and returns.

  A JavaScript \<open>number\<close> holding a position or a velocity is a \<open>real\<close>; the counters
  \<open>lives\<close> and \<open>score\<close>, which start at integer literals and only ever change by one, are
  \<open>int\<close>.  DOM elements carry no game data and are left out.
\<close>

text \<open>\<open>Viewport\<close>, \<open>Birb\<close>, \<open>Constants.PIPE_WIDTH\<close> and \<open>GAP_HEIGHT\<close>.\<close>

definition CANVAS_WIDTH :: real where "CANVAS_WIDTH = 600"
definition CANVAS_HEIGHT :: real where "CANVAS_HEIGHT = 400"
definition BIRB_WIDTH :: real where "BIRB_WIDTH = 42"
definition BIRB_HEIGHT :: real where "BIRB_HEIGHT = 30"
definition PIPE_WIDTH :: real where "PIPE_WIDTH = 50"
definition GAP_HEIGHT :: real where "GAP_HEIGHT = 100"

text \<open>\<open>type State\<close> and \<open>initialState\<close>.\<close>

record State =
  gameEnd :: bool
  birdY :: real
  vy :: real
  lives :: int
  score :: int

definition initialState :: State where
  "initialState = \<lparr>gameEnd = False, birdY = 200, vy = 0, lives = 3, score = 0\<rparr>"

text \<open>\<open>const initialBirdState = { ...initialState, birdY: 200, vy: 0 }\<close>.\<close>

definition initialBirdState :: State where
  "initialBirdState = initialState\<lparr>birdY := 200, vy := 0\<rparr>"

text \<open>
  \<open>type Pipe\<close>.  The field \<open>passed\<close> is optional in the source: \<open>None\<close> is \<open>undefined\<close>.
\<close>

record Pipe =
  x :: real
  gapY :: real
  pipeGapHeight :: real
  passed :: "bool option"

text \<open>
  The mutable data the fold closes over.  \<open>spawned\<close> lists, oldest first, the arrays given to
  \<open>ghostManager.spawnGhost\<close>; \<open>draws\<close> counts the calls of \<open>Math.random\<close>, whose results
  are the values \<open>rnd 0, rnd 1, \<dots>\<close> of a function every operation takes as a parameter.
\<close>

record World =
  activePipes :: "Pipe list"
  currentRun :: "real list"
  spawned :: "real list list"
  draws :: nat

text \<open>
  The elements of \<open>movement$\<close>: \<open>{type: "flap", vy}\<close>, \<open>{type: "gravity", vy}\<close> and
  \<open>{type: "restart"}\<close>.  The stream carries no other \<open>type\<close>, so the last arm of the
  conditional that computes \<open>vy\<close> is never taken.
\<close>

datatype Event = Flap real | Gravity real | Restart

datatype Side = Top | Bottom

section \<open>The obstacle manager: \<open>animatePipes\<close>\<close>

text \<open>\<open>createPipe\<close>: one draw of \<open>Math.random\<close>, one pipe pushed at the right edge.\<close>

definition newPipe :: "real \<Rightarrow> Pipe" where
  "newPipe r =
     (let minGapY = 20;
          maxGapY = CANVAS_HEIGHT - GAP_HEIGHT - 20;
          g = minGapY + r * (maxGapY - minGapY)
      in \<lparr>x = CANVAS_WIDTH, gapY = g, pipeGapHeight = GAP_HEIGHT, passed = None\<rparr>)"

definition createPipe :: "(nat \<Rightarrow> real) \<Rightarrow> World \<Rightarrow> World" where
  "createPipe rnd w =
     w\<lparr>activePipes := activePipes w @ [newPipe (rnd (draws w))], draws := Suc (draws w)\<rparr>"

text \<open>\<open>isColliding\<close>.\<close>

definition isColliding :: "real \<Rightarrow> Pipe \<Rightarrow> Side option" where
  "isColliding y p =
     (let birdTop = y;
          birdBottom = y + BIRB_HEIGHT;
          birdLeft = CANVAS_WIDTH * 0.3;
          birdRight = birdLeft + BIRB_WIDTH;
          withinPipeX = (if birdRight > x p then (if birdLeft < x p + PIPE_WIDTH then True else False)
                         else False)
      in if \<not> withinPipeX then None
         else if birdTop < gapY p then Some Top
         else if birdBottom > gapY p + pipeGapHeight p then Some Bottom
         else None)"

text \<open>\<open>resetPipes\<close>: empty the array if it holds anything, then spawn one pipe.\<close>

definition resetPipes :: "(nat \<Rightarrow> real) \<Rightarrow> World \<Rightarrow> World" where
  "resetPipes rnd w =
     (if length (activePipes w) > 0 then createPipe rnd (w\<lparr>activePipes := []\<rparr>)
      else createPipe rnd w)"

section \<open>The game state machine: the fold of \<open>state$\<close>\<close>

text \<open>
  The block that precedes both decrements of \<open>lives\<close>:
  \<open>if (currentRun.length > 0 && lives > 1) { spawnGhost([...currentRun]); currentRun = [] }\<close>.
\<close>

definition handOver :: "int \<Rightarrow> World \<Rightarrow> World" where
  "handOver l w =
     (if length (currentRun w) > 0 \<and> l > 1
      then w\<lparr>spawned := spawned w @ [currentRun w], currentRun := []\<rparr>
      else w)"

text \<open>The test of the world bounds on the tentative position.\<close>

definition outOfBounds :: "real \<Rightarrow> bool" where
  "outOfBounds y = (y < 0 \<or> y + BIRB_HEIGHT > CANVAS_HEIGHT)"

text \<open>
  The test \<open>!pipe["passed"] && Viewport.CANVAS_WIDTH * 0.3 > pipe.x + Constants.PIPE_WIDTH\<close>.
\<close>

definition scorable :: "Pipe \<Rightarrow> bool" where
  "scorable p = (passed p \<noteq> Some True \<and> CANVAS_WIDTH * 0.3 > x p + PIPE_WIDTH)"

text \<open>
  The loop \<open>for (const { pipe } of activePipes)\<close>, up to its \<open>return\<close>.  The result tells
  whether a pipe collided, and gives the pipes with the \<open>passed\<close> marks set so far and the
  local \<open>score\<close>.  The scan stops at the first colliding pipe.
\<close>

fun scanPipes :: "real \<Rightarrow> Pipe list \<Rightarrow> int \<Rightarrow> bool \<times> Pipe list \<times> int" where
  "scanPipes y [] sc = (False, [], sc)"
| "scanPipes y (p # ps) sc =
     (if isColliding y p \<noteq> None then (True, p # ps, sc)
      else if scorable p
        then (case scanPipes y ps (sc + 1) of (c, ps', sc') \<Rightarrow> (c, p\<lparr>passed := Some True\<rparr> # ps', sc'))
        else (case scanPipes y ps sc of (c, ps', sc') \<Rightarrow> (c, p # ps', sc')))"

text \<open>The velocity an event gives: a flap replaces it, a gravity tick adds to it.\<close>

fun newVy :: "State \<Rightarrow> Event \<Rightarrow> real" where
  "newVy s (Flap v) = v"
| "newVy s (Gravity v) = vy s + v"
| "newVy s Restart = vy s"

text \<open>
  One call of the function given to \<open>scan\<close>.  The names follow the source; \<open>w1\<close>, \<open>lives1\<close>
  and \<open>gameEnd1\<close> are the world and the locals after the test of the world bounds.
\<close>

definition step :: "(nat \<Rightarrow> real) \<Rightarrow> World \<Rightarrow> State \<Rightarrow> Event \<Rightarrow> World \<times> State" where
  "step rnd w s e =
     (if e = Restart then (resetPipes rnd (w\<lparr>currentRun := []\<rparr>), initialBirdState)
      else if gameEnd s then (w, s)
      else
        let vy' = newVy s e;
            birdY' = birdY s + vy';
            hit = outOfBounds birdY';
            w1 = (if hit then resetPipes rnd (handOver (lives s) w) else w);
            lives1 = (if hit then lives s - 1 else lives s);
            newBirdY = (if hit then 200 else birdY');
            gameEnd1 = (if hit then (if lives1 \<le> 0 then True else False) else lives s \<le> 0)
        in case scanPipes newBirdY (activePipes w1) (score s) of
             (True, ps, score') \<Rightarrow>
               let w2 = handOver lives1 (w1\<lparr>activePipes := ps\<rparr>);
                   lives2 = lives1 - 1;
                   gameEnd2 = (if lives2 \<le> 0 then True else gameEnd1)
               in (resetPipes rnd w2,
                   s\<lparr>birdY := 200, vy := 0, lives := lives2, gameEnd := gameEnd2, score := score'\<rparr>)
           | (False, ps, score') \<Rightarrow>
               (w1\<lparr>activePipes := ps, currentRun := currentRun w1 @ [newBirdY]\<rparr>,
                s\<lparr>vy := vy', birdY := newBirdY, lives := lives1, gameEnd := gameEnd1, score := score'\<rparr>))"

text \<open>The fold over a list of events, with nothing else touching the world in between.\<close>

fun run :: "(nat \<Rightarrow> real) \<Rightarrow> World \<times> State \<Rightarrow> Event list \<Rightarrow> World \<times> State" where
  "run rnd ws [] = ws"
| "run rnd ws (e # es) = run rnd (step rnd (fst ws) (snd ws) e) es"

text \<open>
  What the loop body does to a pipe that does not collide: the mark \<open>passed\<close> is set when
  the scoring test holds.
\<close>

definition markPassed :: "Pipe \<Rightarrow> Pipe" where
  "markPassed p = (if scorable p then p\<lparr>passed := Some True\<rparr> else p)"

text \<open>
  The world when \<open>state$\<close> is subscribed: \<open>animatePipes\<close> has run \<open>createPipe()\<close> once,
  \<open>currentRun\<close> is empty and no ghost was spawned.
\<close>

definition initialWorld :: "(nat \<Rightarrow> real) \<Rightarrow> World" where
  "initialWorld rnd =
     createPipe rnd \<lparr>activePipes = [], currentRun = [], spawned = [], draws = 0\<rparr>"

text \<open>
  The states the fold can emit.  Between two events the animation timer moves, removes and
  spawns pipes, so a step may meet any world: the predicate lets every step start from an
  arbitrary world, random source and event, which covers every interleaving of the timers.
\<close>

inductive reachable :: "State \<Rightarrow> bool" where
  start: "reachable initialBirdState"
| fold: "reachable s \<Longrightarrow> reachable (snd (step rnd w s e))"

subsection \<open>Concrete inputs\<close>

text \<open>A random source whose every draw is one half, which puts the gap at 150.\<close>

definition rndHalf :: "nat \<Rightarrow> real" where
  "rndHalf n = 1 / 2"

text \<open>
  A pipe the animation has just moved behind the bird (its right edge 177.5 is left of the
  bird's left edge 180) and that no scan has marked yet; the bird at 200 to 202 was inside
  its gap.
\<close>

definition clearedPipe :: Pipe where
  "clearedPipe = \<lparr>x = 127.5, gapY = 150, pipeGapHeight = 100, passed = None\<rparr>"

definition clearedWorld :: World where
  "clearedWorld = \<lparr>activePipes = [clearedPipe], currentRun = [], spawned = [], draws = 1\<rparr>"

text \<open>The same with a low gap, and a bird that falls fast inside that gap.\<close>

definition lowPipe :: Pipe where
  "lowPipe = \<lparr>x = 127.5, gapY = 275, pipeGapHeight = 100, passed = None\<rparr>"

definition lowWorld :: World where
  "lowWorld = \<lparr>activePipes = [lowPipe], currentRun = [310], spawned = [], draws = 1\<rparr>"

definition fallingState :: State where
  "fallingState = \<lparr>gameEnd = False, birdY = 340, vy = 30, lives = 3, score = 0\<rparr>"

text \<open>A pipe that stands across the bird, its gap far above, after two recorded samples.\<close>

definition blockedWorld :: World where
  "blockedWorld =
     \<lparr>activePipes = [\<lparr>x = 200, gapY = 20, pipeGapHeight = 100, passed = None\<rparr>],
      currentRun = [196, 198], spawned = [], draws = 1\<rparr>"

text \<open>The state twelve gravity ticks after the start, one tick above the bottom edge.\<close>

definition lowState :: State where
  "lowState = \<lparr>gameEnd = False, birdY = 356, vy = 24, lives = 3, score = 0\<rparr>"

text \<open>A state with no life left.\<close>

definition overState :: State where
  "overState = \<lparr>gameEnd = True, birdY = 200, vy = 46, lives = 0, score = 0\<rparr>"

section \<open>Facts about the operations\<close>

lemmas consts_defs =
  CANVAS_WIDTH_def CANVAS_HEIGHT_def BIRB_WIDTH_def BIRB_HEIGHT_def PIPE_WIDTH_def GAP_HEIGHT_def

lemmas eval_defs =
  step_def resetPipes_def createPipe_def newPipe_def isColliding_def handOver_def outOfBounds_def
  scorable_def initialBirdState_def initialState_def initialWorld_def rndHalf_def consts_defs
  Let_def

lemma resetPipes_eq:
  "resetPipes rnd w = w\<lparr>activePipes := [newPipe (rnd (draws w))], draws := Suc (draws w)\<rparr>"
  by (simp add: resetPipes_def createPipe_def)

text \<open>A pipe at the right edge is beyond the bird: it neither collides nor scores.\<close>

lemma newPipe_clear: "isColliding y (newPipe r) = None"
  by (simp add: isColliding_def newPipe_def consts_defs)

lemma newPipe_not_scorable: "\<not> scorable (newPipe r)"
  by (simp add: scorable_def newPipe_def consts_defs)

subsection \<open>The scan\<close>

lemma scan_collides: "fst (scanPipes y ps sc) = (\<exists>p\<in>set ps. isColliding y p \<noteq> None)"
  by (induction ps arbitrary: sc) (simp_all add: split_beta)

lemma scan_clear:
  "\<forall>p\<in>set ps. isColliding y p = None \<Longrightarrow>
   scanPipes y ps sc = (False, map markPassed ps, sc + int (length (filter scorable ps)))"
  by (induction ps arbitrary: sc) (auto simp: markPassed_def)

lemma scan_score_mono: "sc \<le> snd (snd (scanPipes y ps sc))"
proof (induction ps arbitrary: sc)
  case Nil
  then show ?case by simp
next
  case (Cons p ps)
  have "sc \<le> snd (snd (scanPipes y ps sc))" "sc + 1 \<le> snd (snd (scanPipes y ps (sc + 1)))"
    using Cons.IH by blast+
  then show ?case by (auto split: prod.splits)
qed

subsection \<open>The five paths of a step\<close>

lemma step_restart:
  "step rnd w s Restart = (resetPipes rnd (w\<lparr>currentRun := []\<rparr>), initialBirdState)"
  by (simp add: step_def)

lemma step_ended: "e \<noteq> Restart \<Longrightarrow> gameEnd s \<Longrightarrow> step rnd w s e = (w, s)"
  by (simp add: step_def)

text \<open>
  The world bounds are hit.  The scan that follows runs over the pipe just spawned and finds
  nothing, so the step ends in the common tail: the sample 200 is pushed and the computed
  velocity is returned.
\<close>

lemma step_hit:
  assumes "e \<noteq> Restart" "\<not> gameEnd s" "outOfBounds (birdY s + newVy s e)"
  shows "step rnd w s e =
    (let w1 = resetPipes rnd (handOver (lives s) w)
     in (w1\<lparr>currentRun := currentRun w1 @ [200]\<rparr>,
         s\<lparr>vy := newVy s e, birdY := 200, lives := lives s - 1, gameEnd := (lives s - 1 \<le> 0)\<rparr>))"
  using assms by (simp add: step_def Let_def resetPipes_eq newPipe_clear newPipe_not_scorable)

lemma step_no_hit:
  assumes "e \<noteq> Restart" "\<not> gameEnd s" "\<not> outOfBounds (birdY s + newVy s e)"
  shows "step rnd w s e =
    (case scanPipes (birdY s + newVy s e) (activePipes w) (score s) of
       (True, ps, score') \<Rightarrow>
          (resetPipes rnd (handOver (lives s) (w\<lparr>activePipes := ps\<rparr>)),
           s\<lparr>birdY := 200, vy := 0, lives := lives s - 1,
             gameEnd := (if lives s - 1 \<le> 0 then True else lives s \<le> 0), score := score'\<rparr>)
     | (False, ps, score') \<Rightarrow>
          (w\<lparr>activePipes := ps, currentRun := currentRun w @ [birdY s + newVy s e]\<rparr>,
           s\<lparr>vy := newVy s e, birdY := birdY s + newVy s e, lives := lives s,
             gameEnd := (lives s \<le> 0), score := score'\<rparr>))"
  using assms by (simp add: step_def Let_def split: prod.splits bool.splits)

lemma step_cases [case_names restart ended hit collide clear]:
  assumes "e = Restart \<Longrightarrow> P"
    and "e \<noteq> Restart \<Longrightarrow> gameEnd s \<Longrightarrow> P"
    and "e \<noteq> Restart \<Longrightarrow> \<not> gameEnd s \<Longrightarrow> outOfBounds (birdY s + newVy s e) \<Longrightarrow> P"
    and "\<And>ps sc. e \<noteq> Restart \<Longrightarrow> \<not> gameEnd s \<Longrightarrow> \<not> outOfBounds (birdY s + newVy s e) \<Longrightarrow>
           scanPipes (birdY s + newVy s e) (activePipes w) (score s) = (True, ps, sc) \<Longrightarrow> P"
    and "\<And>ps sc. e \<noteq> Restart \<Longrightarrow> \<not> gameEnd s \<Longrightarrow> \<not> outOfBounds (birdY s + newVy s e) \<Longrightarrow>
           scanPipes (birdY s + newVy s e) (activePipes w) (score s) = (False, ps, sc) \<Longrightarrow> P"
  shows P
proof -
  obtain c ps sc where sc: "scanPipes (birdY s + newVy s e) (activePipes w) (score s) = (c, ps, sc)"
    by (metis prod_cases3)
  show P
  proof (cases c)
    case True
    with sc have "scanPipes (birdY s + newVy s e) (activePipes w) (score s) = (True, ps, sc)"
      by simp
    with assms(1,2,3) assms(4) [of ps sc] show P by blast
  next
    case False
    with sc have "scanPipes (birdY s + newVy s e) (activePipes w) (score s) = (False, ps, sc)"
      by simp
    with assms(1,2,3) assms(5) [of ps sc] show P by blast
  qed
qed

lemma reachable_run: "reachable s \<Longrightarrow> reachable (snd (run rnd (w, s) es))"
proof (induction es arbitrary: w s)
  case Nil
  then show ?case by simp
next
  case (Cons e es)
  have "reachable (snd (step rnd w s e))" using Cons.prems by (rule reachable.fold)
  then have "reachable (snd (run rnd (fst (step rnd w s e), snd (step rnd w s e)) es))"
    by (rule Cons.IH)
  then show ?case by simp
qed

section \<open>Restart\<close>


text \<open>
  Claim C1.  Whatever the prior state and world, also when \<open>gameEnd\<close> holds, a restart event
  returns exactly the initial state (lives 3, score 0, birdY 200, velocity 0, not ended),
  empties the current run trail and leaves exactly one pipe in the obstacle set, the one just
  spawned at the right edge.
\<close>

theorem restart_resets_everything:
  "snd (step rnd w s Restart) = \<lparr>gameEnd = False, birdY = 200, vy = 0, lives = 3, score = 0\<rparr>
   \<and> currentRun (fst (step rnd w s Restart)) = []
   \<and> activePipes (fst (step rnd w s Restart)) =
       [\<lparr>x = 600, gapY = 20 + rnd (draws w) * 260, pipeGapHeight = 100, passed = None\<rparr>]
   \<and> length (activePipes (fst (step rnd w s Restart))) = 1
   \<and> spawned (fst (step rnd w s Restart)) = spawned w"
  by (simp add: step_def resetPipes_eq newPipe_def initialBirdState_def initialState_def consts_defs)

section \<open>The ended state\<close>

lemma run_ended: "gameEnd s \<Longrightarrow> Restart \<notin> set es \<Longrightarrow> run rnd (w, s) es = (w, s)"
  by (induction es) (auto simp: step_ended)

text \<open>
  Claim C5.  Once \<open>gameEnd\<close> holds, a flap or gravity event is a no-op: the step returns the
  state it was given and the world it was given, so no pipe is reset, the score does not
  change, no sample is pushed on the trail and no ghost is spawned.  The same holds for any
  sequence of events that contains no restart.
\<close>

theorem ended_is_frozen:
  assumes "gameEnd s" and "Restart \<notin> set es"
  shows "run rnd (w, s) es = (w, s)
         \<and> (\<forall>v. step rnd w s (Flap v) = (w, s) \<and> step rnd w s (Gravity v) = (w, s))"
  using assms by (simp add: run_ended step_ended)

theorem ended_is_frozen_witness:
  "gameEnd overState
   \<and> Restart \<notin> set [Gravity 2, Flap (- 12), Gravity 2]
   \<and> run rndHalf (lowWorld, overState) [Gravity 2, Flap (- 12), Gravity 2] = (lowWorld, overState)
   \<and> step rndHalf lowWorld overState (Gravity 2) = (lowWorld, overState)"
proof -
  have g: "gameEnd overState" by (simp add: overState_def)
  have r: "Restart \<notin> set [Gravity 2, Flap (- 12), Gravity 2]" by simp
  from ended_is_frozen [OF g r, of rndHalf lowWorld] g r show ?thesis by blast
qed

section \<open>Invariants of the emitted states\<close>

lemma step_keeps_counters:
  assumes "gameEnd s \<longleftrightarrow> lives s \<le> 0" "0 \<le> lives s" "0 \<le> score s"
  shows "(gameEnd (snd (step rnd w s e)) \<longleftrightarrow> lives (snd (step rnd w s e)) \<le> 0)
         \<and> 0 \<le> lives (snd (step rnd w s e)) \<and> 0 \<le> score (snd (step rnd w s e))"
proof (cases rule: step_cases [where e = e and s = s and w = w])
  case restart
  then show ?thesis by (simp add: step_restart initialBirdState_def initialState_def)
next
  case ended
  then show ?thesis using assms by (simp add: step_ended)
next
  case hit
  then show ?thesis using assms by (simp add: step_hit Let_def)
next
  case (collide ps sc)
  moreover have "score s \<le> sc"
    using scan_score_mono [of "score s" "birdY s + newVy s e" "activePipes w"] collide(4) by simp
  ultimately show ?thesis using assms by (simp add: step_no_hit)
next
  case (clear ps sc)
  moreover have "score s \<le> sc"
    using scan_score_mono [of "score s" "birdY s + newVy s e" "activePipes w"] clear(4) by simp
  ultimately show ?thesis using assms by (simp add: step_no_hit)
qed

text \<open>
  Claim C2.  In every state the fold reaches from the initial state, \<open>gameEnd\<close> holds exactly
  when \<open>lives \<le> 0\<close>, and neither \<open>lives\<close> nor \<open>score\<close> is negative.
\<close>

theorem reachable_counters:
  "reachable s \<Longrightarrow> (gameEnd s \<longleftrightarrow> lives s \<le> 0) \<and> 0 \<le> lives s \<and> 0 \<le> score s"
proof (induction rule: reachable.induct)
  case start
  show ?case by (simp add: initialBirdState_def initialState_def)
next
  case (fold s rnd w e)
  then show ?case using step_keeps_counters [of s rnd w e] by blast
qed

text \<open>The witness is the state 23 gravity ticks after the start, where the third life is lost.\<close>

lemma after_23_ticks:
  "snd (run rndHalf (initialWorld rndHalf, initialBirdState) (replicate 23 (Gravity 2))) = overState"
  by (simp add: eval_defs overState_def numeral_eq_Suc)

theorem reachable_counters_witness:
  "reachable overState
   \<and> (gameEnd overState \<longleftrightarrow> lives overState \<le> 0) \<and> 0 \<le> lives overState \<and> 0 \<le> score overState
   \<and> gameEnd overState \<and> lives overState = 0"
proof -
  have r: "reachable overState"
    using reachable_run [OF reachable.start, of rndHalf "initialWorld rndHalf" "replicate 23 (Gravity 2)"]
    by (simp only: after_23_ticks)
  from reachable_counters [OF r] r show ?thesis by (simp add: overState_def)
qed

lemma step_keeps_bird_in_view:
  assumes "0 \<le> birdY s" "birdY s + BIRB_HEIGHT \<le> CANVAS_HEIGHT"
  shows "0 \<le> birdY (snd (step rnd w s e))
         \<and> birdY (snd (step rnd w s e)) + BIRB_HEIGHT \<le> CANVAS_HEIGHT"
proof (cases rule: step_cases [where e = e and s = s and w = w])
  case restart
  then show ?thesis by (simp add: step_restart initialBirdState_def initialState_def consts_defs)
next
  case ended
  then show ?thesis using assms by (simp add: step_ended)
next
  case hit
  then show ?thesis by (simp add: step_hit Let_def consts_defs)
next
  case (collide ps sc)
  then show ?thesis by (simp add: step_no_hit consts_defs)
next
  case (clear ps sc)
  then show ?thesis by (simp add: step_no_hit outOfBounds_def)
qed

text \<open>
  Claim C10.  In every state the fold reaches from the initial state the bird is inside the
  viewport: \<open>0 \<le> birdY\<close> and \<open>birdY + BIRB_HEIGHT \<le> CANVAS_HEIGHT\<close>, that is \<open>birdY\<close> lies in
  \<open>[0, 370]\<close> for the height 30 and the viewport 400.  A tentative position outside the range
  never reaches the emitted state: the step emits 200 in its place.
\<close>

theorem reachable_bird_in_view:
  "reachable s \<Longrightarrow>
     0 \<le> birdY s \<and> birdY s + BIRB_HEIGHT \<le> CANVAS_HEIGHT \<and> birdY s \<le> 370
     \<and> BIRB_HEIGHT = 30 \<and> CANVAS_HEIGHT = 400
     \<and> (\<forall>rnd w e. e \<noteq> Restart \<and> outOfBounds (birdY s + newVy s e) \<and> \<not> gameEnd s
            \<longrightarrow> birdY (snd (step rnd w s e)) = 200)"
proof (induction rule: reachable.induct)
  case start
  show ?case by (simp add: initialBirdState_def initialState_def consts_defs step_hit Let_def)
next
  case (fold s rnd w e)
  then show ?case using step_keeps_bird_in_view [of s rnd w e]
    by (simp add: consts_defs step_hit Let_def)
qed

text \<open>The witness is the state one tick above the bottom edge; the next tick leaves the view.\<close>

lemma after_12_ticks:
  "snd (run rndHalf (initialWorld rndHalf, initialBirdState) (replicate 12 (Gravity 2))) = lowState"
  by (simp add: eval_defs lowState_def numeral_eq_Suc)

theorem reachable_bird_in_view_witness:
  "reachable lowState \<and> 0 \<le> birdY lowState \<and> birdY lowState \<le> 370
   \<and> outOfBounds (birdY lowState + newVy lowState (Gravity 2))
   \<and> birdY (snd (step rndHalf lowWorld lowState (Gravity 2))) = 200"
proof -
  have r: "reachable lowState"
    using reachable_run [OF reachable.start, of rndHalf "initialWorld rndHalf" "replicate 12 (Gravity 2)"]
    by (simp only: after_12_ticks)
  have o: "outOfBounds (birdY lowState + newVy lowState (Gravity 2))" "\<not> gameEnd lowState"
    by (simp_all add: lowState_def outOfBounds_def consts_defs)
  from reachable_bird_in_view [OF r] r o show ?thesis by simp
qed

section \<open>Losing a life\<close>

lemma handOver_pipes: "handOver l (w\<lparr>activePipes := ps\<rparr>) = (handOver l w)\<lparr>activePipes := ps\<rparr>"
  by (simp add: handOver_def)

lemma lives_after_step:
  assumes "e \<noteq> Restart" "\<not> gameEnd s"
  shows "lives (snd (step rnd w s e)) =
           (if outOfBounds (birdY s + newVy s e)
               \<or> (\<exists>p\<in>set (activePipes w). isColliding (birdY s + newVy s e) p \<noteq> None)
            then lives s - 1 else lives s)"
proof (cases rule: step_cases [where e = e and s = s and w = w])
  case restart
  then show ?thesis using assms by simp
next
  case ended
  then show ?thesis using assms by simp
next
  case hit
  then show ?thesis by (simp add: step_hit Let_def)
next
  case (collide ps sc)
  moreover have "\<exists>p\<in>set (activePipes w). isColliding (birdY s + newVy s e) p \<noteq> None"
    using scan_collides [of "birdY s + newVy s e" "activePipes w" "score s"] collide(4) by simp
  ultimately show ?thesis by (simp add: step_no_hit)
next
  case (clear ps sc)
  moreover have "\<not> (\<exists>p\<in>set (activePipes w). isColliding (birdY s + newVy s e) p \<noteq> None)"
    using scan_collides [of "birdY s + newVy s e" "activePipes w" "score s"] clear(4) by simp
  ultimately show ?thesis by (simp add: step_no_hit)
qed

text \<open>When the bounds are hit the pipes of the world are replaced before any of them is tested.\<close>

lemma hit_ignores_pipes:
  assumes "e \<noteq> Restart" "\<not> gameEnd s" "outOfBounds (birdY s + newVy s e)"
  shows "step rnd (w\<lparr>activePipes := ps\<rparr>) s e = step rnd w s e"
  using assms by (simp add: step_hit Let_def resetPipes_eq handOver_def)

text \<open>
  Claim C3.  A flap or gravity event on a state that has not ended takes at most one life.
  The bounds are tested first: when the tentative position is out of bounds the step does
  not depend on the pipes of the world at all, since they are replaced before the scan.  A
  collision with the bounds or with a pipe takes exactly one life, however many pipes the
  scan tests, and a step without collision takes none.
\<close>

theorem one_life_per_event:
  assumes "e \<noteq> Restart" "\<not> gameEnd s"
  shows "lives (snd (step rnd w s e)) =
           (if outOfBounds (birdY s + newVy s e)
               \<or> (\<exists>p\<in>set (activePipes w). isColliding (birdY s + newVy s e) p \<noteq> None)
            then lives s - 1 else lives s)
         \<and> lives s - 1 \<le> lives (snd (step rnd w s e))
         \<and> lives (snd (step rnd w s e)) \<le> lives s
         \<and> (outOfBounds (birdY s + newVy s e) \<longrightarrow>
              step rnd (w\<lparr>activePipes := ps\<rparr>) s e = step rnd w s e)"
  using assms lives_after_step [where e = e and s = s and rnd = rnd and w = w]
    hit_ignores_pipes [where e = e and s = s and rnd = rnd and w = w and ps = ps] by simp

theorem one_life_per_event_witness:
  "Gravity 2 \<noteq> Restart \<and> \<not> gameEnd fallingState
   \<and> outOfBounds (birdY fallingState + newVy fallingState (Gravity 2))
   \<and> lives (snd (step rndHalf lowWorld fallingState (Gravity 2))) = lives fallingState - 1
   \<and> lives (snd (step rndHalf lowWorld fallingState (Gravity 2))) = 2
   \<and> step rndHalf (lowWorld\<lparr>activePipes := []\<rparr>) fallingState (Gravity 2)
       = step rndHalf lowWorld fallingState (Gravity 2)"
proof -
  have e: "Gravity 2 \<noteq> Restart" by simp
  have g: "\<not> gameEnd fallingState" by (simp add: fallingState_def)
  have o: "outOfBounds (birdY fallingState + newVy fallingState (Gravity 2))"
    by (simp add: fallingState_def outOfBounds_def consts_defs)
  have l: "lives fallingState = 3" by (simp add: fallingState_def)
  from one_life_per_event [OF e g, of rndHalf lowWorld "[]"] e g o l show ?thesis by simp
qed

lemma world_after_loss:
  assumes "e \<noteq> Restart" "\<not> gameEnd s" "lives (snd (step rnd w s e)) < lives s"
  shows "spawned (fst (step rnd w s e)) = spawned (handOver (lives s) w)
       \<and> currentRun (fst (step rnd w s e)) =
           (if outOfBounds (birdY s + newVy s e) then currentRun (handOver (lives s) w) @ [200]
            else currentRun (handOver (lives s) w))"
proof (cases rule: step_cases [where e = e and s = s and w = w])
  case restart
  then show ?thesis using assms by simp
next
  case ended
  then show ?thesis using assms by simp
next
  case hit
  then show ?thesis by (simp add: step_hit Let_def resetPipes_eq)
next
  case (collide ps sc)
  then show ?thesis by (simp add: step_no_hit resetPipes_eq handOver_pipes)
next
  case (clear ps sc)
  then show ?thesis using assms(3) by (simp add: step_no_hit)
qed

text \<open>
  Claim C8.  On a step that loses a life a ghost is spawned exactly when the trail is not
  empty and more than one life was left before the loss.  The ghost is given the trail as it
  was, and the hand-over empties the trail: after a collision with a pipe the trail is empty,
  after a collision with the bounds it holds only the sample 200 that the step pushes
  afterwards.  On the loss of the last life no ghost is spawned.
\<close>

theorem ghost_on_life_loss:
  assumes "e \<noteq> Restart" "lives (snd (step rnd w s e)) < lives s"
  shows "spawned (fst (step rnd w s e)) =
           (if currentRun w \<noteq> [] \<and> lives s > 1 then spawned w @ [currentRun w] else spawned w)
         \<and> (if currentRun w \<noteq> [] \<and> lives s > 1
            then currentRun (handOver (lives s) w) = []
               \<and> currentRun (fst (step rnd w s e)) =
                   (if outOfBounds (birdY s + newVy s e) then [200] else [])
            else spawned (fst (step rnd w s e)) = spawned w)"
proof -
  have "\<not> gameEnd s" using assms by (auto simp: step_ended)
  from world_after_loss [OF assms(1) this assms(2)] show ?thesis by (simp add: handOver_def)
qed

theorem ghost_on_life_loss_witness:
  "Gravity 2 \<noteq> Restart \<and> \<not> gameEnd initialBirdState
   \<and> lives (snd (step rndHalf blockedWorld initialBirdState (Gravity 2))) < lives initialBirdState
   \<and> currentRun blockedWorld = [196, 198] \<and> lives initialBirdState = 3
   \<and> spawned (fst (step rndHalf blockedWorld initialBirdState (Gravity 2))) = [[196, 198]]
   \<and> currentRun (fst (step rndHalf blockedWorld initialBirdState (Gravity 2))) = []"
proof -
  have e: "Gravity 2 \<noteq> Restart" by simp
  have g: "\<not> gameEnd initialBirdState" by (simp add: initialBirdState_def initialState_def)
  have l: "lives (snd (step rndHalf blockedWorld initialBirdState (Gravity 2))) < lives initialBirdState"
    by (simp add: eval_defs blockedWorld_def)
  have o: "\<not> outOfBounds (birdY initialBirdState + newVy initialBirdState (Gravity 2))"
    by (simp add: eval_defs)
  have c: "currentRun blockedWorld = [196, 198]" "spawned blockedWorld = []"
    "lives initialBirdState = 3"
    by (simp_all add: blockedWorld_def initialBirdState_def initialState_def)
  from ghost_on_life_loss [OF e l] e g l o c show ?thesis by simp
qed

section \<open>The path through the world bounds\<close>

text \<open>
  The two collisions do not end alike.  After a collision with a pipe the step returns at
  once, with the velocity set to 0 and nothing pushed on the trail.
\<close>

lemma pipe_collision_result:
  assumes "e \<noteq> Restart" "\<not> gameEnd s" "\<not> outOfBounds (birdY s + newVy s e)"
    and "\<exists>p\<in>set (activePipes w). isColliding (birdY s + newVy s e) p \<noteq> None"
  shows "birdY (snd (step rnd w s e)) = 200 \<and> vy (snd (step rnd w s e)) = 0
       \<and> currentRun (fst (step rnd w s e)) = currentRun (handOver (lives s) w)"
proof -
  obtain ps sc where "scanPipes (birdY s + newVy s e) (activePipes w) (score s) = (True, ps, sc)"
    using assms(4) scan_collides [of "birdY s + newVy s e" "activePipes w" "score s"]
    by (metis fst_conv prod_cases3)
  then show ?thesis using assms(1,2,3) by (simp add: step_no_hit resetPipes_eq handOver_pipes)
qed

text \<open>
  After a collision with the bounds the step goes on through the loop and the common tail:
  the velocity returned is the computed one, and the sample 200 is pushed on the trail.
\<close>

lemma bounds_collision_result:
  assumes "e \<noteq> Restart" "\<not> gameEnd s" "outOfBounds (birdY s + newVy s e)"
  shows "birdY (snd (step rnd w s e)) = 200 \<and> vy (snd (step rnd w s e)) = newVy s e
       \<and> currentRun (fst (step rnd w s e)) = currentRun (handOver (lives s) w) @ [200]"
  using assms by (simp add: step_hit Let_def resetPipes_eq)

text \<open>
  Claim C4.  The claim asks for the velocity 0 after a life is lost at the world bounds.  The
  code at the state twelve gravity ticks after the start, on the thirteenth tick: the
  tentative position 382 is below the viewport, the life is taken, the bird is put back at
  200 and the pipes are replaced by a fresh one, but the velocity emitted is 26.
\<close>

theorem bounds_loss_keeps_velocity:
  "snd (step rnd w lowState (Gravity 2))
     = \<lparr>gameEnd = False, birdY = 200, vy = 26, lives = 2, score = 0\<rparr>
   \<and> activePipes (fst (step rnd w lowState (Gravity 2))) = [newPipe (rnd (draws w))]
   \<and> snd (run rndHalf (initialWorld rndHalf, initialBirdState) (replicate 13 (Gravity 2)))
     = \<lparr>gameEnd = False, birdY = 200, vy = 26, lives = 2, score = 0\<rparr>"
proof -
  have "Gravity 2 \<noteq> Restart" "\<not> gameEnd lowState"
    "outOfBounds (birdY lowState + newVy lowState (Gravity 2))"
    by (simp_all add: lowState_def outOfBounds_def consts_defs)
  then have "step rnd w lowState (Gravity 2) =
    (let w1 = resetPipes rnd (handOver (lives lowState) w)
     in (w1\<lparr>currentRun := currentRun w1 @ [200]\<rparr>,
         lowState\<lparr>vy := newVy lowState (Gravity 2), birdY := 200, lives := lives lowState - 1,
           gameEnd := (lives lowState - 1 \<le> 0)\<rparr>))"
    by (rule step_hit)
  then have "snd (step rnd w lowState (Gravity 2))
       = \<lparr>gameEnd = False, birdY = 200, vy = 26, lives = 2, score = 0\<rparr>"
    and "activePipes (fst (step rnd w lowState (Gravity 2))) = [newPipe (rnd (draws w))]"
    by (simp_all add: Let_def lowState_def resetPipes_eq handOver_def)
  moreover have "snd (run rndHalf (initialWorld rndHalf, initialBirdState) (replicate 13 (Gravity 2)))
     = \<lparr>gameEnd = False, birdY = 200, vy = 26, lives = 2, score = 0\<rparr>"
    by (simp add: eval_defs numeral_eq_Suc)
  ultimately show ?thesis by simp
qed

text \<open>
  Claim C9.  The claim asks that a step with a collision pushes no sample on the trail.  The
  code on the thirteenth gravity tick after the start, which hits the bottom edge: the twelve
  samples recorded so far go to a ghost, and the trail the step leaves holds the sample 200.
\<close>

theorem bounds_loss_pushes_sample:
  "fst (run rndHalf (initialWorld rndHalf, initialBirdState) (replicate 13 (Gravity 2)))
     = \<lparr>activePipes = [newPipe (1 / 2)], currentRun = [200],
        spawned = [[202, 206, 212, 220, 230, 242, 256, 272, 290, 310, 332, 356]], draws = 2\<rparr>
   \<and> currentRun (fst (step rnd w lowState (Gravity 2))) = currentRun (handOver 3 w) @ [200]"
proof -
  have "Gravity 2 \<noteq> Restart" "\<not> gameEnd lowState"
    "outOfBounds (birdY lowState + newVy lowState (Gravity 2))"
    by (simp_all add: lowState_def outOfBounds_def consts_defs)
  then have "step rnd w lowState (Gravity 2) =
    (let w1 = resetPipes rnd (handOver (lives lowState) w)
     in (w1\<lparr>currentRun := currentRun w1 @ [200]\<rparr>,
         lowState\<lparr>vy := newVy lowState (Gravity 2), birdY := 200, lives := lives lowState - 1,
           gameEnd := (lives lowState - 1 \<le> 0)\<rparr>))"
    by (rule step_hit)
  then have "currentRun (fst (step rnd w lowState (Gravity 2))) = currentRun (handOver 3 w) @ [200]"
    by (simp add: Let_def lowState_def resetPipes_eq)
  moreover have "fst (run rndHalf (initialWorld rndHalf, initialBirdState) (replicate 13 (Gravity 2)))
     = \<lparr>activePipes = [newPipe (1 / 2)], currentRun = [200],
        spawned = [[202, 206, 212, 220, 230, 242, 256, 272, 290, 310, 332, 356]], draws = 2\<rparr>"
    by (simp add: eval_defs numeral_eq_Suc)
  ultimately show ?thesis by simp
qed

section \<open>The first two events\<close>

lemma step_clear:
  assumes "e \<noteq> Restart" "\<not> gameEnd s" "\<not> outOfBounds (birdY s + newVy s e)"
    and "\<forall>p\<in>set (activePipes w). isColliding (birdY s + newVy s e) p = None"
  shows "step rnd w s e =
    (w\<lparr>activePipes := map markPassed (activePipes w),
       currentRun := currentRun w @ [birdY s + newVy s e]\<rparr>,
     s\<lparr>vy := newVy s e, birdY := birdY s + newVy s e, lives := lives s, gameEnd := (lives s \<le> 0),
       score := score s + int (length (filter scorable (activePipes w)))\<rparr>)"
  using assms(1,2,3) by (simp add: step_no_hit scan_clear [OF assms(4)])

text \<open>
  The scenario as the claim C6 states it asks for the score 0 whenever no pipe overlaps the
  bird.  A pipe that lies behind the bird and is not yet marked does not overlap it at any
  height, and the gravity tick scores it: the state emitted has the score 1.
\<close>

theorem first_tick_may_score:
  "(\<forall>y. isColliding y clearedPipe = None)
   \<and> activePipes clearedWorld = [clearedPipe]
   \<and> snd (step rndHalf clearedWorld \<lparr>gameEnd = False, birdY = 200, vy = 0, lives = 3, score = 0\<rparr>
            (Gravity 2))
       = \<lparr>gameEnd = False, birdY = 202, vy = 2, lives = 3, score = 1\<rparr>
   \<and> snd (step rndHalf clearedWorld \<lparr>gameEnd = False, birdY = 200, vy = 0, lives = 3, score = 0\<rparr>
            (Gravity 2))
       \<noteq> \<lparr>gameEnd = False, birdY = 202, vy = 2, lives = 3, score = 0\<rparr>"
  by (simp add: eval_defs clearedWorld_def clearedPipe_def)

text \<open>
  Claim C6, amended.  From the state \<open>{birdY: 200, vy: 0, lives: 3, score: 0, gameEnd: false}\<close>,
  when no pipe collides with the bird at its new position and no pipe waits to be scored
  (none is unmarked with its right edge behind the bird), a gravity event with delta 2 gives
  \<open>{birdY: 202, vy: 2, lives: 3, score: 0, gameEnd: false}\<close>.  A following flap with delta
  \<open>-12\<close>, again with no pipe colliding at the new position, replaces the velocity: the state
  emitted has the velocity \<open>-12\<close>, not \<open>2 - 12\<close>, and \<open>birdY = 190\<close>.
\<close>

theorem gravity_then_flap:
  assumes "\<forall>p\<in>set (activePipes w). isColliding 202 p = None"
    and "\<forall>p\<in>set (activePipes w). \<not> scorable p"
    and "\<forall>p\<in>set (activePipes w'). isColliding 190 p = None"
  shows "snd (step rnd w \<lparr>gameEnd = False, birdY = 200, vy = 0, lives = 3, score = 0\<rparr> (Gravity 2))
           = \<lparr>gameEnd = False, birdY = 202, vy = 2, lives = 3, score = 0\<rparr>
       \<and> vy (snd (step rnd' w' \<lparr>gameEnd = False, birdY = 202, vy = 2, lives = 3, score = 0\<rparr>
                    (Flap (- 12)))) = - 12
       \<and> birdY (snd (step rnd' w' \<lparr>gameEnd = False, birdY = 202, vy = 2, lives = 3, score = 0\<rparr>
                    (Flap (- 12)))) = 190"
proof -
  let ?s0 = "\<lparr>gameEnd = False, birdY = 200, vy = 0, lives = 3, score = 0\<rparr>"
  let ?s1 = "\<lparr>gameEnd = False, birdY = 202, vy = 2, lives = 3, score = 0\<rparr>"
  have none: "filter scorable (activePipes w) = []"
    using assms(2) by (simp add: filter_empty_conv)
  have "step rnd w ?s0 (Gravity 2) =
    (w\<lparr>activePipes := map markPassed (activePipes w),
       currentRun := currentRun w @ [birdY ?s0 + newVy ?s0 (Gravity 2)]\<rparr>,
     ?s0\<lparr>vy := newVy ?s0 (Gravity 2), birdY := birdY ?s0 + newVy ?s0 (Gravity 2),
       lives := lives ?s0, gameEnd := (lives ?s0 \<le> 0),
       score := score ?s0 + int (length (filter scorable (activePipes w)))\<rparr>)"
    by (rule step_clear) (simp_all add: outOfBounds_def consts_defs assms(1))
  then have 1: "snd (step rnd w ?s0 (Gravity 2)) = ?s1"
    by (simp add: none)
  have "step rnd' w' ?s1 (Flap (- 12)) =
    (w'\<lparr>activePipes := map markPassed (activePipes w'),
       currentRun := currentRun w' @ [birdY ?s1 + newVy ?s1 (Flap (- 12))]\<rparr>,
     ?s1\<lparr>vy := newVy ?s1 (Flap (- 12)), birdY := birdY ?s1 + newVy ?s1 (Flap (- 12)),
       lives := lives ?s1, gameEnd := (lives ?s1 \<le> 0),
       score := score ?s1 + int (length (filter scorable (activePipes w')))\<rparr>)"
    by (rule step_clear) (simp_all add: outOfBounds_def consts_defs assms(3))
  then have 2: "vy (snd (step rnd' w' ?s1 (Flap (- 12)))) = - 12
      \<and> birdY (snd (step rnd' w' ?s1 (Flap (- 12)))) = 190"
    by simp
  from 1 2 show ?thesis by simp
qed

theorem gravity_then_flap_witness:
  "isColliding 202 (newPipe (1 / 2)) = None \<and> \<not> scorable (newPipe (1 / 2))
   \<and> isColliding 190 (newPipe (1 / 2)) = None
   \<and> activePipes (initialWorld rndHalf) = [newPipe (1 / 2)]
   \<and> snd (step rndHalf (initialWorld rndHalf)
            \<lparr>gameEnd = False, birdY = 200, vy = 0, lives = 3, score = 0\<rparr> (Gravity 2))
       = \<lparr>gameEnd = False, birdY = 202, vy = 2, lives = 3, score = 0\<rparr>
   \<and> vy (snd (step rndHalf (initialWorld rndHalf)
            \<lparr>gameEnd = False, birdY = 202, vy = 2, lives = 3, score = 0\<rparr> (Flap (- 12)))) = - 12
   \<and> birdY (snd (step rndHalf (initialWorld rndHalf)
            \<lparr>gameEnd = False, birdY = 202, vy = 2, lives = 3, score = 0\<rparr> (Flap (- 12)))) = 190"
proof -
  have p: "activePipes (initialWorld rndHalf) = [newPipe (1 / 2)]"
    by (simp add: initialWorld_def createPipe_def rndHalf_def)
  have a: "\<forall>p\<in>set (activePipes (initialWorld rndHalf)). isColliding 202 p = None"
    and b: "\<forall>p\<in>set (activePipes (initialWorld rndHalf)). \<not> scorable p"
    and c: "\<forall>p\<in>set (activePipes (initialWorld rndHalf)). isColliding 190 p = None"
    by (simp_all add: p newPipe_clear newPipe_not_scorable)
  from gravity_then_flap [OF a b c, of rndHalf rndHalf] p show ?thesis
    by (simp add: newPipe_clear newPipe_not_scorable)
qed

section \<open>Scoring\<close>

lemma marked_never_scorable: "passed p = Some True \<Longrightarrow> \<not> scorable (p\<lparr>x := x'\<rparr>)"
  by (simp add: scorable_def)

lemma later_scorable:
  "length (filter scorable (map (\<lambda>p. p\<lparr>x := h (x p)\<rparr>) (map markPassed ps)))
     = length (filter (\<lambda>p. \<not> scorable p \<and> scorable (p\<lparr>x := h (x p)\<rparr>)) ps)"
  by (induction ps) (auto simp: markPassed_def scorable_def)

text \<open>
  The claim C7 as stated gives a point for every pipe on the first step at which the bird
  has cleared it.  A step that hits the world bounds replaces the pipes before the scan: the
  pipe just cleared is discarded, and the score is not raised.
\<close>

theorem cleared_pipe_dropped_unscored:
  "scorable lowPipe \<and> isColliding (birdY fallingState) lowPipe = None
   \<and> \<not> gameEnd fallingState \<and> activePipes lowWorld = [lowPipe]
   \<and> score (snd (step rndHalf lowWorld fallingState (Gravity 2))) = score fallingState
   \<and> activePipes (fst (step rndHalf lowWorld fallingState (Gravity 2))) = [newPipe (1 / 2)]
   \<and> lowPipe \<notin> set (activePipes (fst (step rndHalf lowWorld fallingState (Gravity 2))))"
  by (simp add: eval_defs lowWorld_def lowPipe_def fallingState_def)

text \<open>
  Claim C7, amended.  On a flap or gravity step from a state that has not ended, in which
  neither the world bounds nor a pipe is hit, the score grows by exactly 1 for every pipe
  that is not yet marked \<open>passed\<close> and whose right edge the bird's fixed horizontal position
  has cleared, and exactly these pipes are marked.  A marked pipe never scores again,
  wherever it moves: whatever the positions of the pipes at a later scan, the pipes that scan
  can score are pipes this step did not score.
\<close>

theorem scoring_once_per_pipe:
  assumes "e \<noteq> Restart" "\<not> gameEnd s" "\<not> outOfBounds (birdY s + newVy s e)"
    and "\<forall>p\<in>set (activePipes w). isColliding (birdY s + newVy s e) p = None"
  shows "score (snd (step rnd w s e)) = score s + int (length (filter scorable (activePipes w)))
       \<and> activePipes (fst (step rnd w s e)) = map markPassed (activePipes w)
       \<and> (\<forall>p\<in>set (activePipes w). scorable p \<longrightarrow>
             markPassed p = p\<lparr>passed := Some True\<rparr> \<and> (\<forall>x'. \<not> scorable ((markPassed p)\<lparr>x := x'\<rparr>)))
       \<and> (\<forall>p\<in>set (activePipes w). \<not> scorable p \<longrightarrow> markPassed p = p)
       \<and> (\<forall>p\<in>set (activePipes (fst (step rnd w s e))). \<not> scorable p)
       \<and> (\<forall>h. length (filter scorable
                    (map (\<lambda>p. p\<lparr>x := h (x p)\<rparr>) (activePipes (fst (step rnd w s e)))))
              = length (filter (\<lambda>p. \<not> scorable p \<and> scorable (p\<lparr>x := h (x p)\<rparr>)) (activePipes w)))"
proof -
  note st = step_clear [OF assms, of rnd]
  have 1: "score (snd (step rnd w s e)) = score s + int (length (filter scorable (activePipes w)))"
    and 2: "activePipes (fst (step rnd w s e)) = map markPassed (activePipes w)"
    by (simp_all add: st)
  have 3: "\<forall>p\<in>set (activePipes w). scorable p \<longrightarrow>
             markPassed p = p\<lparr>passed := Some True\<rparr> \<and> (\<forall>x'. \<not> scorable ((markPassed p)\<lparr>x := x'\<rparr>))"
    by (simp add: markPassed_def marked_never_scorable)
  have 4: "\<forall>p\<in>set (activePipes w). \<not> scorable p \<longrightarrow> markPassed p = p"
    by (simp add: markPassed_def)
  have 5: "\<forall>p\<in>set (activePipes (fst (step rnd w s e))). \<not> scorable p"
    unfolding 2 by (auto simp: markPassed_def scorable_def)
  have 6: "\<forall>h. length (filter scorable
                    (map (\<lambda>p. p\<lparr>x := h (x p)\<rparr>) (activePipes (fst (step rnd w s e)))))
              = length (filter (\<lambda>p. \<not> scorable p \<and> scorable (p\<lparr>x := h (x p)\<rparr>)) (activePipes w))"
    unfolding 2 by (rule allI) (rule later_scorable)
  from 1 2 3 4 5 6 show ?thesis by blast
qed

theorem scoring_once_per_pipe_witness:
  "Gravity 2 \<noteq> Restart \<and> \<not> gameEnd initialBirdState
   \<and> \<not> outOfBounds (birdY initialBirdState + newVy initialBirdState (Gravity 2))
   \<and> isColliding (birdY initialBirdState + newVy initialBirdState (Gravity 2)) clearedPipe = None
   \<and> scorable clearedPipe
   \<and> score (snd (step rndHalf clearedWorld initialBirdState (Gravity 2))) = 1
   \<and> activePipes (fst (step rndHalf clearedWorld initialBirdState (Gravity 2)))
       = [clearedPipe\<lparr>passed := Some True\<rparr>]
   \<and> score (snd (step rndHalf (fst (step rndHalf clearedWorld initialBirdState (Gravity 2)))
                    (snd (step rndHalf clearedWorld initialBirdState (Gravity 2))) (Gravity 2))) = 1"
proof -
  have e: "Gravity 2 \<noteq> Restart" by simp
  have g: "\<not> gameEnd initialBirdState" by (simp add: initialBirdState_def initialState_def)
  have o: "\<not> outOfBounds (birdY initialBirdState + newVy initialBirdState (Gravity 2))"
    by (simp add: eval_defs)
  have c: "isColliding (birdY initialBirdState + newVy initialBirdState (Gravity 2)) clearedPipe = None"
    by (simp add: eval_defs clearedPipe_def)
  then have a: "\<forall>p\<in>set (activePipes clearedWorld).
      isColliding (birdY initialBirdState + newVy initialBirdState (Gravity 2)) p = None"
    by (simp add: clearedWorld_def)
  have sc: "scorable clearedPipe" by (simp add: scorable_def clearedPipe_def consts_defs)
  have again: "score (snd (step rndHalf (fst (step rndHalf clearedWorld initialBirdState (Gravity 2)))
                    (snd (step rndHalf clearedWorld initialBirdState (Gravity 2))) (Gravity 2))) = 1"
    by (simp add: eval_defs clearedWorld_def clearedPipe_def)
  from scoring_once_per_pipe [OF e g o a, of rndHalf] e g o c sc again show ?thesis
    by (simp add: clearedWorld_def markPassed_def initialBirdState_def initialState_def)
qed

end
